theory Spec2Isabelle
  imports Main "HOL-Library.Word"
begin

unbundle bit_operations_syntax

section \<open>The object model of \<^verbatim>\<open>vm.cpp\<close>\<close>

text \<open>
  The interpreter works on \<^verbatim>\<open>typedef void* object\<close>: every heap value is reached
  through an untyped pointer and read with the accessors of the generated header
  \<^verbatim>\<open>type-header.h\<close> (\<^verbatim>\<open>frameNext\<close>, \<^verbatim>\<open>codeBody\<close>, \<^verbatim>\<open>intValue\<close>, ...). The header is
  not among the sources; the constructors below carry the fields that \<^verbatim>\<open>vm.cpp\<close> reads
  and writes through those accessors, in the order in which the \<^verbatim>\<open>make...\<close> calls of
  \<^verbatim>\<open>vm.cpp\<close> pass them (the boxed int is \<open>Int'\<close>, since \<open>Int\<close> is notation of HOL).
  An object is modelled by its contents, \<^verbatim>\<open>0\<close> by \<open>Null\<close>; the
  nursery index and the collector behind \<^verbatim>\<open>allocate\<close> are not part of the model.
\<close>

type_synonym uint8_t = "8 word"
type_synonym int8_t = "8 word"
type_synonym uint16_t = "16 word"
type_synonym uint32_t = "32 word"
type_synonym int32_t = "32 word"
type_synonym unsigned = "32 word"

record ExceptionHandler =
  exceptionHandlerStart :: uint16_t
  exceptionHandlerEnd :: uint16_t
  exceptionHandlerIp :: uint16_t
  exceptionHandlerCatchType :: uint16_t

datatype object =
    Null
  | Int' (intValue: int32_t)
  | Long (longValue: "64 word")
  | Byte (byteValue: int8_t)
  | Short (shortValue: "16 word")
  | ByteArray (byteArrayBody: "int8_t list")
  | BooleanArray (booleanArrayBody: "uint8_t list")
  | CharArray (charArrayBody: "uint16_t list")
  | ShortArray (shortArrayBody: "uint16_t list")
  | IntArray (intArrayBody: "int32_t list")
  | LongArray (longArrayBody: "64 word list")
  | ObjectArray (objectArrayElementClass: object) (objectArrayBody: "object list")
  | RawArray (rawArrayBody: "object list")
  | String (stringBytes: object) (stringOffset: unsigned) (stringLength: unsigned)
      (stringHash: unsigned)
  | Trace (traceMethod: object) (traceIp: unsigned) (traceNext: object)
  | Frame (frameMethod: object) (frameNext: object) (frameIp: unsigned)
      (frameStackBase: unsigned) (frameLocals: "uint8_t list")
  | Method (methodClass: object) (methodParameterCount: unsigned) (methodCode: object)
  | Code (codeBody: "uint8_t list") (codeMaxStack: unsigned) (codeMaxLocals: unsigned)
      (codePool: object) (codeExceptionHandlerTable: object)
  | ExceptionHandlerTable (exceptionHandlerTableBody: "ExceptionHandler list")
  | Class (classId: unsigned) (classSuper: object) (classInterfaceTable: object)
      (className: object)
  | Interface (interfaceId: unsigned)
  | Instance (instanceClass: object) (instanceFields: "object list")
  | ThreadObject (threadExceptionHandler: object)
  | ArrayIndexOutOfBoundsException (throwableMessage: object) (throwableTrace: object)
  | NullPointerException (throwableMessage: object) (throwableTrace: object)
  | StackOverflowError (throwableMessage: object) (throwableTrace: object)
  | ClassCastException (throwableMessage: object) (throwableTrace: object)

section \<open>Threads, protectors and the root scanner\<close>

text \<open>
  A visitor receives the address of a slot that holds a reference. The slots of one
  thread are its four reference fields and the cells of its operand stack
  (\<^verbatim>\<open>t->stack + i\<close>); a \<^verbatim>\<open>PROTECT\<close>ed C++ local is a slot outside the thread.
\<close>

datatype slot =
    ThreadSlot
  | FrameSlot
  | CodeSlot
  | ExceptionSlot
  | StackSlot nat
  | LocalSlot nat

text \<open>
  \<^verbatim>\<open>Thread::Protector\<close>: the protected slot \<^verbatim>\<open>p\<close> and the link \<^verbatim>\<open>next\<close> (written
  \<open>next'\<close>, since \<open>next\<close> is a keyword); a null link is \<open>None\<close>. The back
  pointer \<^verbatim>\<open>t\<close> is the thread the functions below are applied to.
\<close>

datatype Protector = Protector (p: slot) (next': "Protector option")

datatype State = NoState | ActiveState | IdleState | ZombieState | ExclusiveState | ExitState

record Thread =
  state :: State
  thread :: object
  frame :: object
  code :: object
  exception :: object
  ip :: unsigned
  sp :: unsigned
  heapIndex :: unsigned
  stack :: "nat \<Rightarrow> object"
  protector :: "Protector option"

definition StackSize :: unsigned where
  "StackSize = 64 * 1024"

text \<open>The constructor and the destructor of \<^verbatim>\<open>Thread::Protector\<close> (lines 63-69).\<close>

definition Protector_ctor :: "Thread \<Rightarrow> slot \<Rightarrow> Protector \<times> Thread" where
  "Protector_ctor t ps =
     (let this = Protector ps (protector t)
      in (this, t\<lparr>protector := Some this\<rparr>))"

definition Protector_dtor :: "Protector \<Rightarrow> Thread \<Rightarrow> Thread" where
  "Protector_dtor this t = t\<lparr>protector := next' this\<rparr>"

text \<open>
  \<^verbatim>\<open>iterate\<close> (lines 148-169). The model returns the addresses handed to
  \<^verbatim>\<open>v->visit\<close>, in call order, and the thread with its nursery index reset. The
  first loop runs \<^verbatim>\<open>t->sp\<close> times and passes \<^verbatim>\<open>t->stack + t->sp\<close> each time. The
  last loop of the source, \<^verbatim>\<open>for (Thread* t = t->child; ...)\<close>, declares a new \<^verbatim>\<open>t\<close>
  and initialises it from itself, so what it descends into is not a function of the
  thread passed in; the model ends where that loop begins.
\<close>

fun visit_protectors :: "Protector option \<Rightarrow> slot list" where
  "visit_protectors None = []"
| "visit_protectors (Some (Protector ps n)) = ps # visit_protectors n"

definition visit_stack :: "Thread \<Rightarrow> slot list" where
  "visit_stack t = map (\<lambda>i. StackSlot (unat (sp t))) [0 ..< unat (sp t)]"

definition iterate :: "Thread \<Rightarrow> slot list \<times> Thread" where
  "iterate t =
     ([ThreadSlot, FrameSlot, CodeSlot, ExceptionSlot]
        @ visit_stack t
        @ visit_protectors (protector t),
      t\<lparr>heapIndex := 0\<rparr>)"

text \<open>
  Protector scopes. \<^verbatim>\<open>PROTECT(t, name)\<close> declares a \<^verbatim>\<open>Thread::Protector\<close> local, so
  the constructor runs where the block reaches the declaration and the destructor where
  the block is left. A \<open>Protect ps body\<close> is such a block: it registers the slot
  \<open>ps\<close>, runs the blocks nested in it one after the other, and leaves.
  \<open>run_scope\<close> returns the thread states passed through while the block's own
  protector is registered (after its constructor, before its destructor), and the thread
  after the destructor.
\<close>

datatype scope = Protect slot "scope list"

fun run_scope :: "scope \<Rightarrow> Thread \<Rightarrow> Thread list \<times> Thread"
  and run_body :: "scope list \<Rightarrow> Thread \<Rightarrow> Thread list \<times> Thread" where
  "run_scope (Protect ps body) t =
     (let (this, t1) = Protector_ctor t ps;
          (inside, t2) = run_body body t1
      in (t1 # inside, Protector_dtor this t2))"
| "run_body [] t = ([], t)"
| "run_body (b # bs) t =
     (let (inner, t1) = run_scope b t;
          (rest, t2) = run_body bs t1
      in (inner @ t1 # rest, t2))"

section \<open>The thread coordinator\<close>

text \<open>
  The fields of \<^verbatim>\<open>Machine\<close> that \<^verbatim>\<open>enter\<close> reads and writes. A \<^verbatim>\<open>Thread*\<close> is a
  number, \<^verbatim>\<open>0\<close> the null pointer.
\<close>

record Machine =
  exclusive :: nat
  activeCount :: unsigned
  liveCount :: unsigned

text \<open>
  \<^verbatim>\<open>stateLock->wait()\<close> releases the monitor, lets the other threads run and returns
  with the monitor held again. What the other threads did to the machine in between is
  one element of a schedule, a list of functions on \<open>Machine\<close>; each \<^verbatim>\<open>wait\<close>
  takes the next one. A call that is still waiting when the schedule is used up is
  \<open>Blocked\<close> in the state it has reached; \<^verbatim>\<open>abort\<close> ends the process.
\<close>

datatype 'a result = Done 'a | Blocked 'a | Abort

type_synonym schedule = "(Machine \<Rightarrow> Machine) list"

text \<open>\<^verbatim>\<open>while (guard) { t->vm->stateLock->wait(); }\<close>\<close>

fun wait_while :: "(Machine \<Rightarrow> bool) \<Rightarrow> schedule \<Rightarrow> Machine \<Rightarrow> (schedule \<times> Machine) result" where
  "wait_while guard [] m = (if guard m then Blocked ([], m) else Done ([], m))"
| "wait_while guard (e # es) m =
     (if guard m then wait_while guard es (e m) else Done (e # es, m))"

text \<open>
  \<^verbatim>\<open>enter\<close> (lines 193-290), first without the \<^verbatim>\<open>ExclusiveState\<close> case: the
  early return, and the cases \<^verbatim>\<open>IdleState\<close>/\<^verbatim>\<open>ZombieState\<close>, \<^verbatim>\<open>ActiveState\<close>,
  \<^verbatim>\<open>ExitState\<close> and \<^verbatim>\<open>default\<close> of the outer switch (the last \<open>else\<close>, which
  by itself would also take a request for \<^verbatim>\<open>ExclusiveState\<close>; \<open>enter\<close> below
  answers that request before it gets here). \<open>tp\<close> is the pointer \<^verbatim>\<open>t\<close> itself.
  \<^verbatim>\<open>notifyAll\<close> changes no field. \<^verbatim>\<open>ACQUIRE_MONITOR\<close> is taken to succeed, also in
  the calls that \<^verbatim>\<open>enter\<close> makes to itself while it holds the monitor.
\<close>

definition enter_other ::
  "schedule \<Rightarrow> Machine \<Rightarrow> nat \<Rightarrow> Thread \<Rightarrow> State \<Rightarrow> (schedule \<times> Machine \<times> Thread) result" where
  "enter_other es m tp t s =
     (if s = state t then Done (es, m, t)
      else if s = IdleState \<or> s = ZombieState then
        (if state t = ExclusiveState \<and> exclusive m \<noteq> tp then Abort
         else if state t \<noteq> ExclusiveState \<and> state t \<noteq> ActiveState then Abort
         else
           (let m1 = (if state t = ExclusiveState then m\<lparr>exclusive := 0\<rparr> else m);
                m2 = m1\<lparr>activeCount := activeCount m1 - 1\<rparr>;
                m3 = (if s = ZombieState then m2\<lparr>liveCount := liveCount m2 - 1\<rparr> else m2)
            in Done (es, m3, t\<lparr>state := s\<rparr>)))
      else if s = ActiveState then
        (if state t = ExclusiveState then
           (if exclusive m \<noteq> tp then Abort
            else Done (es, m\<lparr>exclusive := 0\<rparr>, t\<lparr>state := s\<rparr>))
         else if state t = NoState \<or> state t = IdleState then
           (case wait_while (\<lambda>m. exclusive m \<noteq> 0) es m of
              Done (es1, m1) \<Rightarrow>
                (let m2 = m1\<lparr>activeCount := activeCount m1 + 1\<rparr>;
                     m3 = (if state t = NoState then m2\<lparr>liveCount := liveCount m2 + 1\<rparr> else m2)
                 in Done (es1, m3, t\<lparr>state := s\<rparr>))
            | Blocked (es1, m1) \<Rightarrow> Blocked (es1, m1, t)
            | Abort \<Rightarrow> Abort)
         else Abort)
      else if s = ExitState then
        (if state t = ExclusiveState \<and> exclusive m \<noteq> tp then Abort
         else if state t \<noteq> ExclusiveState \<and> state t \<noteq> ActiveState then Abort
         else
           (let m1 = (if state t = ExclusiveState then m\<lparr>exclusive := 0\<rparr> else m);
                m2 = m1\<lparr>activeCount := activeCount m1 - 1\<rparr>;
                t1 = t\<lparr>state := s\<rparr>
            in case wait_while (\<lambda>m. 1 < liveCount m) es m2 of
                 Done (es1, m3) \<Rightarrow> Done (es1, m3, t1)
               | Blocked (es1, m3) \<Rightarrow> Blocked (es1, m3, t1)
               | Abort \<Rightarrow> Abort))
      else Abort)"

text \<open>
  The loop of the \<^verbatim>\<open>ExclusiveState\<close> case,
  \<^verbatim>\<open>while (t->vm->exclusive) { enter(t, Thread::IdleState); enter(t, Thread::ActiveState); }\<close>.
  Its two calls ask for a state other than \<^verbatim>\<open>ExclusiveState\<close>, so they are calls
  of \<open>enter_other\<close>.
\<close>

function exclusive_loop ::
  "schedule \<Rightarrow> Machine \<Rightarrow> nat \<Rightarrow> Thread \<Rightarrow> (schedule \<times> Machine \<times> Thread) result" where
  "exclusive_loop es m tp t =
     (if exclusive m \<noteq> 0 then
        (case enter_other es m tp t IdleState of
           Done (es1, m1, t1) \<Rightarrow>
             (case enter_other es1 m1 tp t1 ActiveState of
                Done (es2, m2, t2) \<Rightarrow> exclusive_loop es2 m2 tp t2
              | Blocked x \<Rightarrow> Blocked x
              | Abort \<Rightarrow> Abort)
         | Blocked x \<Rightarrow> Blocked x
         | Abort \<Rightarrow> Abort)
      else Done (es, m, t))"
  by pat_completeness auto

lemma wait_while_Done:
  "wait_while g es m = Done (es', m') \<Longrightarrow>
     length es' \<le> length es \<and> (g m \<longrightarrow> length es' < length es) \<and> \<not> g m'"
  by (induction es arbitrary: m) (fastforce split: if_splits)+

lemma enter_other_Idle_Done:
  "enter_other es m tp t IdleState = Done (es1, m1, t1) \<Longrightarrow>
     es1 = es \<and> (state t \<noteq> ExclusiveState \<longrightarrow> exclusive m1 = exclusive m) \<and>
     (state t = ExclusiveState \<longrightarrow> exclusive m1 = 0) \<and> state t1 = IdleState"
  by (auto simp: enter_other_def Let_def split: if_splits)

lemma enter_other_Active_from_Idle_Done:
  "enter_other es m tp t ActiveState = Done (es1, m1, t1) \<Longrightarrow> state t = IdleState \<Longrightarrow>
     length es1 \<le> length es \<and> (exclusive m \<noteq> 0 \<longrightarrow> length es1 < length es) \<and>
     exclusive m1 = 0"
  by (auto simp: enter_other_def Let_def split: if_splits result.splits dest!: wait_while_Done)

termination exclusive_loop
proof (relation "measures [\<lambda>(es, m, tp, t). length es,
                           \<lambda>(es, m, tp, t). if exclusive m \<noteq> 0 then 1 else 0]", goal_cases)
  case 1
  then show ?case by simp
next
  case (2 es m tp t x es1 y m1 t1 x2 es2 y2 m2 t2)
  then show ?case
    using enter_other_Idle_Done[of es m tp t es1 m1 t1]
      enter_other_Active_from_Idle_Done[of es1 m1 tp t1 es2 m2 t2]
    by auto
qed

text \<open>
  \<^verbatim>\<open>enter\<close> itself: the early return, the \<^verbatim>\<open>ExclusiveState\<close> case (the assertion,
  the loop above, the two assignments and the wait for \<^verbatim>\<open>activeCount\<close>), and the other
  cases.
\<close>

definition enter ::
  "schedule \<Rightarrow> Machine \<Rightarrow> nat \<Rightarrow> Thread \<Rightarrow> State \<Rightarrow> (schedule \<times> Machine \<times> Thread) result" where
  "enter es m tp t s =
     (if s = state t then Done (es, m, t)
      else if s = ExclusiveState then
        (if state t \<noteq> ActiveState then Abort
         else
           (case exclusive_loop es m tp t of
              Done (es1, m1, t1) \<Rightarrow>
                (let t2 = t1\<lparr>state := ExclusiveState\<rparr>;
                     m2 = m1\<lparr>exclusive := tp\<rparr>
                 in case wait_while (\<lambda>m. 1 < activeCount m) es1 m2 of
                      Done (es2, m3) \<Rightarrow> Done (es2, m3, t2)
                    | Blocked (es2, m3) \<Rightarrow> Blocked (es2, m3, t2)
                    | Abort \<Rightarrow> Abort)
            | Blocked x \<Rightarrow> Blocked x
            | Abort \<Rightarrow> Abort))
      else enter_other es m tp t s)"

section \<open>The interpreter\<close>

text \<open>
  Where a fragment of \<^verbatim>\<open>run\<close> ends: at one of the labels \<^verbatim>\<open>loop\<close> and
  \<^verbatim>\<open>throw_\<close>, or in \<^verbatim>\<open>abort(t)\<close>. \<open>Stored a a' t\<close> is \<^verbatim>\<open>goto loop\<close> after an array store: the array
  that had the contents \<open>a\<close> now has the contents \<open>a'\<close>. \<open>ReadPastCode\<close> is a read of
  \<^verbatim>\<open>codeBody(t, code)[ip++]\<close> behind the last byte of the body.
\<close>

datatype outcome =
    GotoLoop Thread
  | GotoThrow Thread
  | CallAbort Thread
  | Stored object object Thread
  | ReadPastCode

text \<open>\<^verbatim>\<open>push\<close>, \<^verbatim>\<open>pop\<close> (lines 337-347) and \<^verbatim>\<open>codeBody(t, code)[ip++]\<close>.\<close>

definition push :: "Thread \<Rightarrow> object \<Rightarrow> Thread" where
  "push t v = t\<lparr>stack := (stack t)(unat (sp t) := v), sp := sp t + 1\<rparr>"

definition pop :: "Thread \<Rightarrow> object \<times> Thread" where
  "pop t = (stack t (unat (sp t - 1)), t\<lparr>sp := sp t - 1\<rparr>)"

definition fetch :: "Thread \<Rightarrow> (uint8_t \<times> Thread) option" where
  "fetch t =
     (if unat (ip t) < length (codeBody (code t))
      then Some (codeBody (code t) ! unat (ip t), t\<lparr>ip := ip t + 1\<rparr>)
      else None)"

subsection \<open>Strings and traces\<close>

text \<open>
  \<^verbatim>\<open>%d\<close> of \<^verbatim>\<open>vsnprintf\<close>: the decimal digits of a signed value, with a minus sign
  when it is negative.
\<close>

fun decimal :: "nat \<Rightarrow> string" where
  "decimal n =
     (if n < 10 then [''0123456789'' ! n]
      else decimal (n div 10) @ [''0123456789'' ! (n mod 10)])"

declare decimal.simps [simp del]

definition format_d :: "int \<Rightarrow> string" where
  "format_d i = (if i < 0 then CHR ''-'' # decimal (nat (- i)) else decimal (nat i))"

text \<open>
  \<^verbatim>\<open>makeString(t, format, ...)\<close> (lines 374-389), applied to the text that the format
  and its arguments expand to: \<^verbatim>\<open>vsnprintf(buffer, Size - 1, ...)\<close> keeps at most
  \<^verbatim>\<open>Size - 2\<close> characters and terminates them, the byte array gets
  \<^verbatim>\<open>strlen(buffer) + 1\<close> bytes, and that many bytes of the buffer are copied (the
  terminator is the last one). The result is the four-argument \<^verbatim>\<open>makeString\<close> of the
  generated header: bytes, offset, length, hash.
\<close>

definition Size :: nat where
  "Size = 256"

definition strlen :: "int8_t list \<Rightarrow> nat" where
  "strlen buffer = length (takeWhile (\<lambda>c. c \<noteq> 0) buffer)"

definition makeString :: "string \<Rightarrow> object" where
  "makeString text =
     (let buffer = map of_char (take (Size - 2) text) @ [0 :: int8_t];
          s = ByteArray (take (strlen buffer + 1) buffer)
      in String s 0 (of_nat (length (byteArrayBody s))) 0)"

text \<open>
  \<^verbatim>\<open>makeTrace(t)\<close> (lines 391-402). The loop variable is \<^verbatim>\<open>t->frame\<close> itself. The
  \<^verbatim>\<open>PROTECT\<close> of the local \<^verbatim>\<open>trace\<close> is left out, here and in the functions
  below that protect a local: the constructor and the destructor of the protector run
  in the same call and leave \<^verbatim>\<open>t->protector\<close> as it was. An accessor applied to \<^verbatim>\<open>0\<close> or to an
  object of another type has no equation.
\<close>

fun set_frameIp :: "object \<Rightarrow> unsigned \<Rightarrow> object" where
  "set_frameIp (Frame m n i b l) v = Frame m n v b l"

fun makeTrace_loop :: "object \<Rightarrow> object \<Rightarrow> object \<times> object" where
  "makeTrace_loop (Frame m n i b l) trace = makeTrace_loop n (Trace m i trace)"
| "makeTrace_loop Null trace = (Null, trace)"

definition makeTrace :: "Thread \<Rightarrow> object \<times> Thread" where
  "makeTrace t =
     (let t1 = t\<lparr>frame := set_frameIp (frame t) (ip t)\<rparr>;
          (f, trace) = makeTrace_loop (frame t1) Null
      in (trace, t1\<lparr>frame := f\<rparr>))"

text \<open>The exception factories of lines 404-446.\<close>

definition makeArrayIndexOutOfBoundsException :: "Thread \<Rightarrow> object \<Rightarrow> object \<times> Thread" where
  "makeArrayIndexOutOfBoundsException t message =
     (let (trace, t1) = makeTrace t in (ArrayIndexOutOfBoundsException message trace, t1))"

definition makeClassCastException :: "Thread \<Rightarrow> object \<Rightarrow> object \<times> Thread" where
  "makeClassCastException t message =
     (let (trace, t1) = makeTrace t in (ClassCastException message trace, t1))"

definition makeNullPointerException :: "Thread \<Rightarrow> object \<times> Thread" where
  "makeNullPointerException t =
     (let (trace, t1) = makeTrace t in (NullPointerException Null trace, t1))"

definition makeStackOverflowError :: "Thread \<Rightarrow> object \<times> Thread" where
  "makeStackOverflowError t =
     (let (trace, t1) = makeTrace t in (StackOverflowError Null trace, t1))"

subsection \<open>Class tests\<close>

text \<open>
  \<^verbatim>\<open>objectClass\<close> is declared in \<^verbatim>\<open>vm.cpp\<close> and defined elsewhere; it reads the class
  word of an object. In the model an \<open>Instance\<close> carries its class.
\<close>

fun objectClass :: "object \<Rightarrow> object" where
  "objectClass (Instance c fs) = c"

text \<open>
  \<^verbatim>\<open>instanceOf\<close> (lines 496-523). \<open>itable_has\<close> is the inner loop over the interface
  table (step 2), \<open>implements\<close> and \<open>extends\<close> are the two loops over the superclass
  chain.
\<close>

fun itable_has :: "unsigned \<Rightarrow> object list \<Rightarrow> bool" where
  "itable_has ident [] = False"
| "itable_has ident [x] = (interfaceId x = ident)"
| "itable_has ident (x # y # rest) = (interfaceId x = ident \<or> itable_has ident rest)"

fun implements :: "unsigned \<Rightarrow> object \<Rightarrow> bool" where
  "implements ident (Class cid super itable name) =
     (itable_has ident (rawArrayBody itable) \<or> implements ident super)"
| "implements ident Null = False"

fun extends :: "unsigned \<Rightarrow> object \<Rightarrow> bool" where
  "extends ident (Class cid super itable name) = (cid = ident \<or> extends ident super)"
| "extends ident Null = False"

definition instanceOf :: "object \<Rightarrow> object \<Rightarrow> bool" where
  "instanceOf class' v =
     (if v = Null then False
      else case class' of
             Interface ident \<Rightarrow> implements ident (objectClass v)
           | _ \<Rightarrow> extends (classId class') (objectClass v))"

text \<open>
  \<^verbatim>\<open>resolveClass(t, pool, index)\<close> (lines 697-710) for the pool of the current code,
  the only pool \<^verbatim>\<open>run\<close> passes. \<^verbatim>\<open>resolveClass(t, spec)\<close>, which it calls for an
  entry that is still a name, looks the name up in the class map and otherwise asks the
  class finder and the class parser, neither of which is in \<^verbatim>\<open>vm.cpp\<close>; it is the
  parameter \<open>by_name\<close>. The resolved class replaces the name in the pool. An index
  behind the last entry of a pool is a read outside the array in the source and
  \<open>!\<close> out of range here.
\<close>

fun set_codePool :: "object \<Rightarrow> object \<Rightarrow> object" where
  "set_codePool (Code body maxStack maxLocals pool eht) pool' =
     Code body maxStack maxLocals pool' eht"

definition resolveClass ::
  "(Thread \<Rightarrow> object \<Rightarrow> object \<times> Thread) \<Rightarrow> Thread \<Rightarrow> uint16_t \<Rightarrow> object \<times> Thread" where
  "resolveClass by_name t index =
     (let pool = codePool (code t);
          v = rawArrayBody pool ! unat index
      in case v of
           ByteArray name \<Rightarrow>
             (let (c, t1) = by_name t v
              in if exception t1 \<noteq> Null then (Null, t1)
                 else (c, t1\<lparr>code := set_codePool (code t1)
                                 (RawArray ((rawArrayBody pool)[unat index := c]))\<rparr>))
         | _ \<Rightarrow> (v, t))"

subsection \<open>Opcodes\<close>

text \<open>
  Each definition is the body of one \<^verbatim>\<open>case\<close> of the switch at \<^verbatim>\<open>loop\<close>, entered
  when the opcode byte has been read and \<^verbatim>\<open>ip\<close> points behind it.
  \<^verbatim>\<open>(offset1 << 8) | offset2\<close> is an \<^verbatim>\<open>int\<close> between 0 and 65535, added to the
  unsigned \<^verbatim>\<open>ip - 1\<close>.
\<close>

definition makeInt :: "int32_t \<Rightarrow> object" where
  "makeInt v = Int' v"

definition branch :: "Thread \<Rightarrow> uint8_t \<Rightarrow> uint8_t \<Rightarrow> Thread" where
  "branch t offset1 offset2 =
     t\<lparr>ip := (ip t - 1) + (push_bit 8 (ucast offset1) OR ucast offset2)\<rparr>"

text \<open>\<^verbatim>\<open>case if_icmplt\<close> (lines 1391-1401) and \<^verbatim>\<open>case if_icmple\<close> (lines 1403-1413).\<close>

definition if_icmplt :: "Thread \<Rightarrow> outcome" where
  "if_icmplt t =
     (case fetch t of
        None \<Rightarrow> ReadPastCode
      | Some (offset1, t1) \<Rightarrow>
          (case fetch t1 of
             None \<Rightarrow> ReadPastCode
           | Some (offset2, t2) \<Rightarrow>
               (let (b, t3) = pop t2;
                    (a, t4) = pop t3
                in if intValue a <s intValue b then GotoLoop (branch t4 offset1 offset2)
                   else GotoLoop t4)))"

definition if_icmple :: "Thread \<Rightarrow> outcome" where
  "if_icmple t =
     (case fetch t of
        None \<Rightarrow> ReadPastCode
      | Some (offset1, t1) \<Rightarrow>
          (case fetch t1 of
             None \<Rightarrow> ReadPastCode
           | Some (offset2, t2) \<Rightarrow>
               (let (b, t3) = pop t2;
                    (a, t4) = pop t3
                in if intValue a <s intValue b then GotoLoop (branch t4 offset1 offset2)
                   else GotoLoop t4)))"

text \<open>
  \<^verbatim>\<open>case arraylength\<close> (lines 888-901). \<^verbatim>\<open>cast<uint32_t>(array, sizeof(void*))\<close> is
  the word behind the class pointer, where the arrays other than the object array keep
  their length. The block of the case is followed by \<^verbatim>\<open>abort(t)\<close>.
\<close>

fun length_behind_class :: "object \<Rightarrow> uint32_t" where
  "length_behind_class (ByteArray b) = of_nat (length b)"
| "length_behind_class (BooleanArray b) = of_nat (length b)"
| "length_behind_class (CharArray b) = of_nat (length b)"
| "length_behind_class (ShortArray b) = of_nat (length b)"
| "length_behind_class (IntArray b) = of_nat (length b)"
| "length_behind_class (LongArray b) = of_nat (length b)"

definition objectArrayLength :: "object \<Rightarrow> uint32_t" where
  "objectArrayLength a = of_nat (length (objectArrayBody a))"

definition arraylength :: "Thread \<Rightarrow> outcome" where
  "arraylength t =
     (let (array, t1) = pop t
      in if array \<noteq> Null then
           (case array of
              ObjectArray c b \<Rightarrow> CallAbort (push t1 (makeInt (objectArrayLength array)))
            | _ \<Rightarrow> CallAbort (push t1 (makeInt (length_behind_class array))))
         else
           (let (e, t2) = makeNullPointerException t1
            in GotoThrow (t2\<lparr>exception := e\<rparr>)))"

text \<open>
  \<^verbatim>\<open>case checkcast\<close> (lines 1040-1059). \<^verbatim>\<open>%s\<close> prints the bytes of a body up to its
  terminator.
\<close>

definition format_s :: "int8_t list \<Rightarrow> string" where
  "format_s body = map (\<lambda>c. char_of (unat c)) (takeWhile (\<lambda>c. c \<noteq> 0) body)"

definition checkcast :: "(Thread \<Rightarrow> object \<Rightarrow> object \<times> Thread) \<Rightarrow> Thread \<Rightarrow> outcome" where
  "checkcast by_name t =
     (case fetch t of
        None \<Rightarrow> ReadPastCode
      | Some (index1, t1) \<Rightarrow>
          (case fetch t1 of
             None \<Rightarrow> ReadPastCode
           | Some (index2, t2) \<Rightarrow>
               (if stack t2 (unat (sp t2 - 1)) \<noteq> Null then
                  (let index = push_bit 8 (ucast index1) OR ucast index2;
                       (class', t3) = resolveClass by_name t2 index
                   in if exception t3 \<noteq> Null then GotoThrow t3
                      else if \<not> instanceOf class' (stack t3 (unat (sp t3 - 1))) then
                        (let message = makeString
                               (format_s (byteArrayBody (className
                                   (objectClass (stack t3 (unat (sp t3 - 1))))))
                                @ '' as '' @ format_s (byteArrayBody (className class')));
                             (e, t4) = makeClassCastException t3 message
                         in GotoThrow (t4\<lparr>exception := e\<rparr>))
                      else GotoLoop t3)
                else GotoLoop t2)))"

text \<open>
  The twelve array cases (\<^verbatim>\<open>aaload\<close> ... \<^verbatim>\<open>sastore\<close>) have one shape and differ in
  the accessors only: \<open>length_of\<close> is \<^verbatim>\<open>objectArrayLength\<close>, \<^verbatim>\<open>intArrayLength\<close>, ...,
  \<open>element\<close> reads and boxes an element, \<open>store\<close> writes one. \<open>array_load\<close> is the
  shape of the loads (for example lines 1236-1256), \<open>array_store\<close> that of the stores
  (for example lines 1265-1286), which read \<^verbatim>\<open>intValue(t, index)\<close> before the null
  test. The message is \<^verbatim>\<open>makeString(t, "%d not in [0,%d]", i, length)\<close>.
\<close>

definition not_in_text :: "int32_t \<Rightarrow> uint32_t \<Rightarrow> string" where
  "not_in_text i n = format_d (sint i) @ '' not in [0,'' @ format_d (sint n) @ '']''"

definition array_load ::
  "(object \<Rightarrow> uint32_t) \<Rightarrow> (object \<Rightarrow> nat \<Rightarrow> object) \<Rightarrow> Thread \<Rightarrow> outcome" where
  "array_load length_of element t =
     (let (index, t1) = pop t;
          (array, t2) = pop t1
      in if array \<noteq> Null then
           (let i = intValue index
            in if 0 \<le>s i \<and> i < length_of array
               then GotoLoop (push t2 (element array (unat i)))
               else
                 (let message = makeString (not_in_text i (length_of array));
                      (e, t3) = makeArrayIndexOutOfBoundsException t2 message
                  in GotoThrow (t3\<lparr>exception := e\<rparr>)))
         else
           (let (e, t3) = makeNullPointerException t2
            in GotoThrow (t3\<lparr>exception := e\<rparr>)))"

definition array_store ::
  "(object \<Rightarrow> uint32_t) \<Rightarrow> (object \<Rightarrow> nat \<Rightarrow> object \<Rightarrow> object) \<Rightarrow> Thread \<Rightarrow> outcome" where
  "array_store length_of store t =
     (let (value, t1) = pop t;
          (index, t2) = pop t1;
          (array, t3) = pop t2;
          i = intValue index
      in if array \<noteq> Null then
           (if 0 \<le>s i \<and> i < length_of array
            then Stored array (store array (unat i) value) t3
            else
              (let message = makeString (not_in_text i (length_of array));
                   (e, t4) = makeArrayIndexOutOfBoundsException t3 message
               in GotoThrow (t4\<lparr>exception := e\<rparr>)))
         else
           (let (e, t4) = makeNullPointerException t3
            in GotoThrow (t4\<lparr>exception := e\<rparr>)))"

definition byteArrayLength :: "object \<Rightarrow> uint32_t" where
  "byteArrayLength a = of_nat (length (byteArrayBody a))"

definition charArrayLength :: "object \<Rightarrow> uint32_t" where
  "charArrayLength a = of_nat (length (charArrayBody a))"

definition shortArrayLength :: "object \<Rightarrow> uint32_t" where
  "shortArrayLength a = of_nat (length (shortArrayBody a))"

definition intArrayLength :: "object \<Rightarrow> uint32_t" where
  "intArrayLength a = of_nat (length (intArrayBody a))"

definition longArrayLength :: "object \<Rightarrow> uint32_t" where
  "longArrayLength a = of_nat (length (longArrayBody a))"

definition aaload :: "Thread \<Rightarrow> outcome" where
  "aaload = array_load objectArrayLength (\<lambda>a i. objectArrayBody a ! i)"

definition baload :: "Thread \<Rightarrow> outcome" where
  "baload = array_load byteArrayLength (\<lambda>a i. Byte (byteArrayBody a ! i))"

definition caload :: "Thread \<Rightarrow> outcome" where
  "caload = array_load charArrayLength (\<lambda>a i. makeInt (ucast (charArrayBody a ! i)))"

definition iaload :: "Thread \<Rightarrow> outcome" where
  "iaload = array_load intArrayLength (\<lambda>a i. makeInt (intArrayBody a ! i))"

definition laload :: "Thread \<Rightarrow> outcome" where
  "laload = array_load longArrayLength (\<lambda>a i. Long (longArrayBody a ! i))"

definition saload :: "Thread \<Rightarrow> outcome" where
  "saload = array_load shortArrayLength (\<lambda>a i. Short (shortArrayBody a ! i))"

definition aastore :: "Thread \<Rightarrow> outcome" where
  "aastore = array_store objectArrayLength
     (\<lambda>a i v. ObjectArray (objectArrayElementClass a) ((objectArrayBody a)[i := v]))"

definition bastore :: "Thread \<Rightarrow> outcome" where
  "bastore = array_store byteArrayLength
     (\<lambda>a i v. ByteArray ((byteArrayBody a)[i := ucast (intValue v)]))"

definition castore :: "Thread \<Rightarrow> outcome" where
  "castore = array_store charArrayLength
     (\<lambda>a i v. CharArray ((charArrayBody a)[i := ucast (intValue v)]))"


definition lastore :: "Thread \<Rightarrow> outcome" where
  "lastore = array_store longArrayLength
     (\<lambda>a i v. LongArray ((longArrayBody a)[i := longValue v]))"

definition sastore :: "Thread \<Rightarrow> outcome" where
  "sastore = array_store shortArrayLength
     (\<lambda>a i v. ShortArray ((shortArrayBody a)[i := ucast (intValue v)]))"

subsection \<open>Frame entry and unwinding\<close>

text \<open>
  The locals of a frame are kept as the bytes of their memory, since
  \<^verbatim>\<open>memcpy(frameLocals(t, frame), stack + sp, parameterCount)\<close> copies
  \<^verbatim>\<open>parameterCount\<close> bytes. \<open>w\<close> is \<^verbatim>\<open>sizeof(object)\<close>, \<open>repr v\<close> the \<open>w\<close> bytes
  of a reference to \<open>v\<close> as a stack cell holds it, and \<open>mem\<close> the bytes found in the
  memory that \<^verbatim>\<open>makeFrame\<close> is handed by \<^verbatim>\<open>allocate\<close>, which clears nothing.
  \<^verbatim>\<open>makeFrame(t, method, next, ip, stackBase, length)\<close> is the constructor of the
  generated header, with \<^verbatim>\<open>length\<close> locals.
\<close>

definition makeFrame ::
  "nat \<Rightarrow> (nat \<Rightarrow> uint8_t) \<Rightarrow> object \<Rightarrow> object \<Rightarrow> unsigned \<Rightarrow> unsigned \<Rightarrow> unsigned \<Rightarrow> object" where
  "makeFrame w mem method next_frame i stackBase n =
     Frame method next_frame i stackBase (map mem [0 ..< unat n * w])"

definition memcpy :: "uint8_t list \<Rightarrow> uint8_t list \<Rightarrow> nat \<Rightarrow> uint8_t list" where
  "memcpy dst src n = take n src @ drop n dst"

definition stack_memory :: "(object \<Rightarrow> uint8_t list) \<Rightarrow> Thread \<Rightarrow> nat \<Rightarrow> nat \<Rightarrow> uint8_t list" where
  "stack_memory repr t first n = concat (map (\<lambda>i. repr (stack t i)) [first ..< first + n])"

fun memcpy_frameLocals :: "object \<Rightarrow> uint8_t list \<Rightarrow> nat \<Rightarrow> object" where
  "memcpy_frameLocals (Frame m n i b l) src k = Frame m n i b (memcpy l src k)"

text \<open>
  The label \<^verbatim>\<open>invoke\<close> (lines 2125-2140); \<^verbatim>\<open>code\<close> holds the method to enter. The
  comparison is one of \<^verbatim>\<open>unsigned\<close> values.
\<close>

definition invoke ::
  "nat \<Rightarrow> (object \<Rightarrow> uint8_t list) \<Rightarrow> (nat \<Rightarrow> uint8_t) \<Rightarrow> Thread \<Rightarrow> unsigned \<Rightarrow> outcome" where
  "invoke w repr mem t parameterCount =
     (if StackSize < codeMaxStack (methodCode (code t)) + sp t - parameterCount then
        (let (e, t1) = makeStackOverflowError t
         in GotoThrow (t1\<lparr>exception := e\<rparr>))
      else
        (let t1 = t\<lparr>frame := set_frameIp (frame t) (ip t)\<rparr>;
             t2 = t1\<lparr>sp := sp t1 - parameterCount\<rparr>;
             t3 = t2\<lparr>frame := makeFrame w mem (code t2) (frame t2) 0 (sp t2)
                                 (codeMaxLocals (methodCode (code t2)))\<rparr>;
             t4 = t3\<lparr>frame := memcpy_frameLocals (frame t3)
                                 (stack_memory repr t3 (unat (sp t3)) (unat parameterCount))
                                 (unat parameterCount)\<rparr>
         in GotoLoop (t4\<lparr>ip := 0\<rparr>)))"

text \<open>
  The label \<^verbatim>\<open>throw_\<close> (lines 2142-2172), here \<open>throw'\<close>. \<open>matching_handler\<close> is
  the inner loop over the exception handler table, \<open>throw_frames\<close> the outer loop over the frames, which
  starts at \<^verbatim>\<open>t->frame\<close>, followed by the dispatch to the handler for uncaught
  exceptions.
\<close>

fun matching_handler :: "object \<Rightarrow> object \<Rightarrow> ExceptionHandler list \<Rightarrow> ExceptionHandler option" where
  "matching_handler pool e [] = None"
| "matching_handler pool e (eh # ehs) =
     (let catchType = exceptionHandlerCatchType eh
      in if catchType = 0 \<or> instanceOf (rawArrayBody pool ! unat catchType) e
         then Some eh
         else matching_handler pool e ehs)"

fun throw_frames :: "nat \<Rightarrow> (nat \<Rightarrow> uint8_t) \<Rightarrow> Thread \<Rightarrow> object \<Rightarrow> outcome" where
  "throw_frames w mem t (Frame m n i b l) =
     (let t1 = t\<lparr>frame := Frame m n i b l, code := methodCode m\<rparr>;
          eht = codeExceptionHandlerTable (code t1)
      in case (if eht \<noteq> Null
               then matching_handler (codePool (code t1)) (exception t1)
                      (exceptionHandlerTableBody eht)
               else None) of
           Some eh \<Rightarrow>
             (let t2 = t1\<lparr>sp := frameStackBase (frame t1), ip := ucast (exceptionHandlerIp eh)\<rparr>;
                  t3 = push t2 (exception t2)
              in GotoLoop (t3\<lparr>exception := Null\<rparr>))
         | None \<Rightarrow> throw_frames w mem t1 n)"
| "throw_frames w mem t Null =
     (let t1 = t\<lparr>frame := Null\<rparr>;
          method = threadExceptionHandler (thread t1);
          t2 = t1\<lparr>code := methodCode method\<rparr>;
          t3 = t2\<lparr>frame := makeFrame w mem method Null 0 0 (codeMaxLocals (code t2))\<rparr>;
          t4 = t3\<lparr>sp := 0, ip := 0\<rparr>;
          t5 = push t4 (exception t4)
      in GotoLoop (t5\<lparr>exception := Null\<rparr>))"

definition throw' :: "nat \<Rightarrow> (nat \<Rightarrow> uint8_t) \<Rightarrow> Thread \<Rightarrow> outcome" where
  "throw' w mem t = throw_frames w mem t (frame t)"

section \<open>Notions and inputs of the theorems\<close>

definition thread0 :: Thread where
  "thread0 = \<lparr>state = ActiveState, thread = Null, frame = Null, code = Null, exception = Null,
     ip = 0, sp = 0, heapIndex = 0, stack = (\<lambda>i. Null), protector = None\<rparr>"

text \<open>A thread with two live stack cells and one protected local.\<close>

definition thread_two_cells :: Thread where
  "thread_two_cells = thread0\<lparr>sp := 2, stack := (\<lambda>i. Null)(0 := Int' 10, 1 := Int' 20),
     protector := Some (Protector (LocalSlot 7) None)\<rparr>"

text \<open>
  A schedule keeps \<^verbatim>\<open>liveCount\<close> when no step of the other threads changes it: what
  is left is what the calling thread itself does to the counter.
\<close>

definition keeps_liveCount :: "schedule \<Rightarrow> bool" where
  "keeps_liveCount es = (\<forall>e \<in> set es. \<forall>m. liveCount (e m) = liveCount m)"

text \<open>
  A thread that has read the opcode \<^verbatim>\<open>if_icmple\<close> with the offset bytes \<^verbatim>\<open>00 05\<close>
  behind it, and holds the same int twice on its stack.
\<close>

definition code_if_icmple :: object where
  "code_if_icmple = Code [0xA4, 0x00, 0x05, 0x00, 0x00, 0x00, 0x00, 0xB1] 2 0 (RawArray []) Null"

definition thread_equal_ints :: Thread where
  "thread_equal_ints = thread0\<lparr>code := code_if_icmple, ip := 1, sp := 2,
     stack := (\<lambda>i. Null)(0 := Int' 7, 1 := Int' 7)\<rparr>"

text \<open>A thread with an int array of three elements on top of its stack.\<close>

definition thread_int_array :: Thread where
  "thread_int_array = thread0\<lparr>sp := 1, stack := (\<lambda>i. Null)(0 := IntArray [1, 2, 3])\<rparr>"

text \<open>A thread that has read the opcode \<^verbatim>\<open>checkcast\<close> and holds \<^verbatim>\<open>0\<close> on top of its stack.\<close>

definition code_checkcast :: object where
  "code_checkcast = Code [0xC0, 0x00, 0x01, 0xB1] 1 0 (RawArray [Null, ByteArray [65, 0]]) Null"

definition thread_null_top :: Thread where
  "thread_null_top = thread0\<lparr>code := code_checkcast, ip := 1, sp := 1\<rparr>"

text \<open>
  The scenario \<^verbatim>\<open>int[] a = new int[3]; a[5] = 0;\<close> at its \<^verbatim>\<open>iastore\<close>: the array,
  the index 5 and the value 0 on the stack of a thread with one frame.
\<close>

definition method_main :: object where
  "method_main = Method Null 0 (Code [0x4F, 0xB1] 3 1 (RawArray []) Null)"








text \<open>
  A thread two frames deep: \<open>method_main\<close> has called \<open>method_callee\<close>, whose frame
  is the current one.
\<close>

definition method_callee :: object where
  "method_callee = Method Null 1 (Code [0x2A, 0xBE, 0xAC] 2 1 (RawArray []) Null)"

definition frame_main :: object where
  "frame_main = Frame method_main Null 4 0 []"

definition thread_two_frames :: Thread where
  "thread_two_frames = thread0\<lparr>frame := Frame method_callee frame_main 0 1 [], ip := 2, sp := 1\<rparr>"

text \<open>
  A frame chain is a \<^verbatim>\<open>frameNext\<close> chain of frames that ends in \<^verbatim>\<open>0\<close>;
  \<open>frames_of\<close> lists its frames, the innermost first.
\<close>

fun frame_chain :: "object \<Rightarrow> bool" where
  "frame_chain (Frame m n i b l) = frame_chain n"
| "frame_chain v = (v = Null)"

text \<open>
  An invocation with one parameter on a target where \<^verbatim>\<open>sizeof(object)\<close> is 8:
  \<open>repr8\<close> gives the eight bytes of a reference, the allocator hands out memory full
  of \<^verbatim>\<open>0xEE\<close>.
\<close>

definition repr8 :: "object \<Rightarrow> uint8_t list" where
  "repr8 v = (case v of Int' x \<Rightarrow> [ucast x, 0x10, 0x20, 0x30, 0x40, 0x50, 0x60, 0x70]
                      | _ \<Rightarrow> [0, 0, 0, 0, 0, 0, 0, 0])"

definition thread_call :: Thread where
  "thread_call = thread0\<lparr>code := method_callee, frame := frame_main, ip := 8, sp := 1,
     stack := (\<lambda>i. Null)(0 := Int' 7)\<rparr>"

text \<open>
  What the loops at \<^verbatim>\<open>throw_\<close> test: \<open>catches\<close> is the condition under which a
  handler is taken, \<open>frame_handler\<close> the handler that the inner loop finds for a
  frame, if any.
\<close>

definition catches :: "object \<Rightarrow> object \<Rightarrow> ExceptionHandler \<Rightarrow> bool" where
  "catches pool e eh =
     (exceptionHandlerCatchType eh = 0 \<or>
      instanceOf (rawArrayBody pool ! unat (exceptionHandlerCatchType eh)) e)"

definition frame_handler :: "object \<Rightarrow> object \<Rightarrow> ExceptionHandler option" where
  "frame_handler e f =
     (let c = methodCode (frameMethod f);
          eht = codeExceptionHandlerTable c
      in if eht \<noteq> Null
         then matching_handler (codePool c) e (exceptionHandlerTableBody eht)
         else None)"

fun frames_of :: "object \<Rightarrow> object list" where
  "frames_of (Frame m n i b l) = Frame m n i b l # frames_of n"
| "frames_of v = []"

text \<open>
  A thread that throws at \<^verbatim>\<open>ip = 5\<close> in a method whose only handler covers the range
  from 10 to 20 and catches anything; and the classes \<^verbatim>\<open>E\<close> and \<^verbatim>\<open>F\<close>, both
  subclasses of the root class, with a thread that throws an \<^verbatim>\<open>E\<close> in a frame that
  has a handler for \<^verbatim>\<open>F\<close> only, called from a frame with handlers for \<^verbatim>\<open>F\<close> and then
  for \<^verbatim>\<open>E\<close>.
\<close>

definition junk_memory :: "nat \<Rightarrow> uint8_t" where
  "junk_memory i = 0xEE"

definition class_Object :: object where
  "class_Object = Class 1 Null (RawArray []) (ByteArray [79, 0])"

definition class_E :: object where
  "class_E = Class 2 class_Object (RawArray []) (ByteArray [69, 0])"

definition class_F :: object where
  "class_F = Class 3 class_Object (RawArray []) (ByteArray [70, 0])"

definition handler_any_10_20 :: ExceptionHandler where
  "handler_any_10_20 = \<lparr>exceptionHandlerStart = 10, exceptionHandlerEnd = 20,
     exceptionHandlerIp = 30, exceptionHandlerCatchType = 0\<rparr>"

definition method_try :: object where
  "method_try = Method Null 0
     (Code [0x00, 0x00, 0x00, 0x00, 0xBF] 2 1 (RawArray [Null])
        (ExceptionHandlerTable [handler_any_10_20]))"

definition thread_outside_range :: Thread where
  "thread_outside_range = thread0\<lparr>frame := Frame method_try Null 5 0 [], ip := 5, sp := 2,
     exception := Instance class_E []\<rparr>"

definition pool_F_E :: object where
  "pool_F_E = RawArray [Null, class_F, class_E]"

definition handler_F :: ExceptionHandler where
  "handler_F = \<lparr>exceptionHandlerStart = 0, exceptionHandlerEnd = 8,
     exceptionHandlerIp = 20, exceptionHandlerCatchType = 1\<rparr>"

definition handler_E :: ExceptionHandler where
  "handler_E = \<lparr>exceptionHandlerStart = 0, exceptionHandlerEnd = 8,
     exceptionHandlerIp = 30, exceptionHandlerCatchType = 2\<rparr>"

definition frame_outer :: object where
  "frame_outer = Frame (Method Null 0
      (Code [0xB8, 0x00, 0x01, 0xAC] 2 1 pool_F_E (ExceptionHandlerTable [handler_F, handler_E])))
     Null 3 0 []"

definition frame_inner :: object where
  "frame_inner = Frame (Method Null 0
      (Code [0xBB, 0x00, 0x02, 0xBF] 2 1 pool_F_E (ExceptionHandlerTable [handler_F])))
     frame_outer 0 1 []"

definition thread_catch :: Thread where
  "thread_catch = thread0\<lparr>frame := frame_inner, ip := 4, sp := 2,
     exception := Instance class_E []\<rparr>"

section \<open>The root scanner and the protectors: theorems\<close>

lemma visit_stack_set:
  "set (visit_stack t) = (if sp t = 0 then {} else {StackSlot (unat (sp t))})"
  by (simp add: visit_stack_def image_constant_conv unat_eq_0)

text \<open>
  C1 (the code departs from the claim). The claim: \<^verbatim>\<open>iterate\<close> visits \<^verbatim>\<open>thread\<close>,
  \<^verbatim>\<open>frame\<close>, \<^verbatim>\<open>code\<close>, \<^verbatim>\<open>exception\<close>, then the stack cells \<^verbatim>\<open>&stack[i]\<close> for
  \<open>0 \<le> i < sp\<close>, then the protected slots. On a thread with \<^verbatim>\<open>sp = 2\<close> the code
  visits the four fields, then \<^verbatim>\<open>&stack[2]\<close> twice, then the protected slot: neither
  \<^verbatim>\<open>&stack[0]\<close> nor \<^verbatim>\<open>&stack[1]\<close> is handed to the visitor.
\<close>

theorem iterate_stack_top_only:
  "fst (iterate thread_two_cells) =
     [ThreadSlot, FrameSlot, CodeSlot, ExceptionSlot, StackSlot 2, StackSlot 2, LocalSlot 7]
   \<and> StackSlot 0 \<notin> set (fst (iterate thread_two_cells))
   \<and> StackSlot 1 \<notin> set (fst (iterate thread_two_cells))"
  by (simp add: iterate_def visit_stack_def thread_two_cells_def thread0_def upt_rec)

lemma run_scope_body_protectors:
  "protector (snd (run_scope b t)) = protector t \<and>
     (\<forall>s \<in> set (fst (run_scope b t)).
        set (visit_protectors (protector t)) \<subseteq> set (visit_protectors (protector s)))"
  "protector (snd (run_body bs t)) = protector t \<and>
     (\<forall>s \<in> set (fst (run_body bs t)).
        set (visit_protectors (protector t)) \<subseteq> set (visit_protectors (protector s)))"
proof (induction b t and bs t rule: run_scope_run_body.induct)
  case (1 ps body t)
  obtain this t1 where c: "Protector_ctor t ps = (this, t1)" by (cases "Protector_ctor t ps")
  obtain inside t2 where b: "run_body body t1 = (inside, t2)" by (cases "run_body body t1")
  have p1: "protector t1 = Some (Protector ps (protector t))"
    and th: "this = Protector ps (protector t)"
    using c by (auto simp: Protector_ctor_def Let_def)
  from 1[OF c[symmetric] refl] b
  have ih: "protector t2 = protector t1"
    "\<forall>s \<in> set inside.
       set (visit_protectors (protector t1)) \<subseteq> set (visit_protectors (protector s))"
    by auto
  show ?case using c b p1 th ih
    by (auto simp: Protector_dtor_def)
next
  case (2 t)
  then show ?case by simp
next
  case (3 b bs t)
  obtain inner t1 where a: "run_scope b t = (inner, t1)" by (cases "run_scope b t")
  obtain rest t2 where r: "run_body bs t1 = (rest, t2)" by (cases "run_body bs t1")
  from 3(1) a have ih1: "protector t1 = protector t"
    "\<forall>s \<in> set inner.
       set (visit_protectors (protector t)) \<subseteq> set (visit_protectors (protector s))"
    by auto
  from 3(2)[OF a[symmetric] refl] r have ih2: "protector t2 = protector t1"
    "\<forall>s \<in> set rest.
       set (visit_protectors (protector t1)) \<subseteq> set (visit_protectors (protector s))"
    by auto
  show ?case using a r ih1 ih2 by auto
qed

lemma open_scope_registered:
  assumes "s \<in> set (fst (run_scope (Protect ps body) t))"
  shows "ps \<in> set (visit_protectors (protector s))"
proof -
  obtain this t1 where c: "Protector_ctor t ps = (this, t1)" by (cases "Protector_ctor t ps")
  obtain inside t2 where b: "run_body body t1 = (inside, t2)" by (cases "run_body body t1")
  have p1: "protector t1 = Some (Protector ps (protector t))"
    using c by (auto simp: Protector_ctor_def Let_def)
  have "s = t1 \<or> s \<in> set inside" using assms c b by simp
  then show ?thesis
  proof
    assume "s = t1"
    then show ?thesis using p1 by simp
  next
    assume "s \<in> set inside"
    then have "set (visit_protectors (protector t1)) \<subseteq> set (visit_protectors (protector s))"
      using run_scope_body_protectors(2)[of body t1] b by simp
    then show ?thesis using p1 by auto
  qed
qed

text \<open>
  C10. Constructing a protector puts its slot at the head of the thread's protector
  list; its destructor, in whatever state the thread is by then, sets \<^verbatim>\<open>t->protector\<close>
  to the value it had at construction; after any properly nested scopes the list is what
  it was before; and in every state passed through while a scope is open, the scope's
  slot is among the addresses the root scanner visits.
\<close>

theorem protector_scopes_balanced:
  "visit_protectors (protector (snd (Protector_ctor t ps))) = ps # visit_protectors (protector t)
   \<and> protector (Protector_dtor (fst (Protector_ctor t ps)) t') = protector t
   \<and> protector (snd (run_scope b t)) = protector t
   \<and> (\<forall>s \<in> set (fst (run_scope (Protect ps body) t)). ps \<in> set (fst (iterate s)))"
proof -
  have "\<forall>s \<in> set (fst (run_scope (Protect ps body) t)). ps \<in> set (fst (iterate s))"
    using open_scope_registered[of _ ps body t] by (simp add: iterate_def)
  then show ?thesis
    using run_scope_body_protectors(1)[of b t]
    by (simp add: Protector_ctor_def Protector_dtor_def Let_def)
qed

theorem protector_scopes_balanced_witness:
  "fst (run_scope (Protect (LocalSlot 1) [Protect (LocalSlot 2) []]) thread_two_cells) \<noteq> []
   \<and> LocalSlot 1 \<in> set (fst (iterate
        (last (fst (run_scope (Protect (LocalSlot 1) [Protect (LocalSlot 2) []]) thread_two_cells)))))
   \<and> protector (snd (run_scope (Protect (LocalSlot 1) [Protect (LocalSlot 2) []]) thread_two_cells))
       = Some (Protector (LocalSlot 7) None)"
proof -
  let ?r = "run_scope (Protect (LocalSlot 1) [Protect (LocalSlot 2) []]) thread_two_cells"
  have n: "fst ?r \<noteq> []"
    by (simp add: Protector_ctor_def Let_def split_beta)
  then have l: "last (fst ?r) \<in> set (fst ?r)" by simp
  have p: "protector thread_two_cells = Some (Protector (LocalSlot 7) None)"
    by (simp add: thread_two_cells_def)
  from protector_scopes_balanced[of thread_two_cells "LocalSlot 1" thread0
      "Protect (LocalSlot 1) [Protect (LocalSlot 2) []]" "[Protect (LocalSlot 2) []]"]
  show ?thesis using n l p by simp
qed

section \<open>The thread coordinator: theorems\<close>

lemma wait_while_liveCount:
  "wait_while g es m = Done (es', m') \<or> wait_while g es m = Blocked (es', m') \<Longrightarrow>
   keeps_liveCount es \<Longrightarrow> liveCount m' = liveCount m \<and> keeps_liveCount es'"
proof (induction es arbitrary: m)
  case Nil
  then show ?case by (auto split: if_splits)
next
  case (Cons e es)
  show ?case
  proof (cases "g m")
    case True
    with Cons.prems have "wait_while g es (e m) = Done (es', m') \<or> wait_while g es (e m) = Blocked (es', m')"
      by simp
    moreover have "keeps_liveCount es" using Cons.prems(2) by (simp add: keeps_liveCount_def)
    ultimately have "liveCount m' = liveCount (e m) \<and> keeps_liveCount es'" by (rule Cons.IH)
    then show ?thesis using Cons.prems(2) by (simp add: keeps_liveCount_def)
  next
    case False
    with Cons.prems show ?thesis by auto
  qed
qed

lemma wait_while_not_Abort: "wait_while g es m \<noteq> Abort"
  by (induction es arbitrary: m) auto

lemma enter_other_same: "s = state t \<Longrightarrow> enter_other es m tp t s = Done (es, m, t)"
  by (simp add: enter_other_def)

lemma enter_other_Idle_Zombie:
  "s \<noteq> state t \<Longrightarrow> s = IdleState \<or> s = ZombieState \<Longrightarrow>
   enter_other es m tp t s =
     (if state t = ExclusiveState \<and> exclusive m \<noteq> tp then Abort
      else if state t \<noteq> ExclusiveState \<and> state t \<noteq> ActiveState then Abort
      else Done (es,
        (if state t = ExclusiveState then m\<lparr>exclusive := 0\<rparr> else m)
          \<lparr>activeCount := activeCount m - 1,
           liveCount := (if s = ZombieState then liveCount m - 1 else liveCount m)\<rparr>,
        t\<lparr>state := s\<rparr>))"
  by (auto simp: enter_other_def Let_def)

lemma enter_other_Active:
  "state t \<noteq> ActiveState \<Longrightarrow>
   enter_other es m tp t ActiveState =
     (if state t = ExclusiveState then
        (if exclusive m \<noteq> tp then Abort
         else Done (es, m\<lparr>exclusive := 0\<rparr>, t\<lparr>state := ActiveState\<rparr>))
      else if state t = NoState \<or> state t = IdleState then
        (case wait_while (\<lambda>m. exclusive m \<noteq> 0) es m of
           Done (es1, m1) \<Rightarrow>
             Done (es1, m1\<lparr>activeCount := activeCount m1 + 1,
                          liveCount := (if state t = NoState then liveCount m1 + 1 else liveCount m1)\<rparr>,
                   t\<lparr>state := ActiveState\<rparr>)
         | Blocked (es1, m1) \<Rightarrow> Blocked (es1, m1, t)
         | Abort \<Rightarrow> Abort)
      else Abort)"
  by (auto simp: enter_other_def Let_def split: result.splits)

lemma enter_other_Exit:
  "state t \<noteq> ExitState \<Longrightarrow>
   enter_other es m tp t ExitState =
     (if state t = ExclusiveState \<and> exclusive m \<noteq> tp then Abort
      else if state t \<noteq> ExclusiveState \<and> state t \<noteq> ActiveState then Abort
      else
        (case wait_while (\<lambda>m. 1 < liveCount m) es
                ((if state t = ExclusiveState then m\<lparr>exclusive := 0\<rparr> else m)
                   \<lparr>activeCount := activeCount m - 1\<rparr>) of
           Done (es1, m3) \<Rightarrow> Done (es1, m3, t\<lparr>state := ExitState\<rparr>)
         | Blocked (es1, m3) \<Rightarrow> Blocked (es1, m3, t\<lparr>state := ExitState\<rparr>)
         | Abort \<Rightarrow> Abort))"
  by (auto simp: enter_other_def Let_def split: result.splits)

lemma enter_other_No_Exclusive:
  "s \<noteq> state t \<Longrightarrow> s = NoState \<or> s = ExclusiveState \<Longrightarrow> enter_other es m tp t s = Abort"
  by (auto simp: enter_other_def)

lemma enter_other_liveCount:
  assumes r: "enter_other es m tp t s = Done (es', m', t') \<or> enter_other es m tp t s = Blocked (es', m', t')"
    and k: "keeps_liveCount es"
  shows "keeps_liveCount es' \<and> liveCount m' =
     (if state t = NoState \<and> s = ActiveState \<and> enter_other es m tp t s = Done (es', m', t')
      then liveCount m + 1
      else if s = ZombieState \<and> state t \<noteq> ZombieState then liveCount m - 1
      else liveCount m)"
proof (cases "s = state t")
  case True
  then show ?thesis using r k by (auto simp: enter_other_same)
next
  case ne: False
  consider (iz) "s = IdleState \<or> s = ZombieState" | (a) "s = ActiveState" | (e) "s = ExitState"
    | (o) "s = NoState \<or> s = ExclusiveState" by (cases s) auto
  then show ?thesis
  proof cases
    case iz
    show ?thesis using r k iz ne
      by (auto simp: enter_other_Idle_Zombie[OF ne iz] split: if_splits)
  next
    case a
    have na: "state t \<noteq> ActiveState" using ne a by simp
    show ?thesis
    proof (cases "state t = NoState \<or> state t = IdleState")
      case True
      obtain w where w: "wait_while (\<lambda>m. exclusive m \<noteq> 0) es m = w" by simp
      show ?thesis
      proof (cases w)
        case (Done x)
        obtain es1 m1 where x: "x = (es1, m1)" by (cases x)
        have "liveCount m1 = liveCount m \<and> keeps_liveCount es1"
          using wait_while_liveCount[OF disjI1 k] w Done x by simp
        then show ?thesis using r a True w Done x
          by (auto simp: enter_other_Active[OF na])
      next
        case (Blocked x)
        obtain es1 m1 where x: "x = (es1, m1)" by (cases x)
        have "liveCount m1 = liveCount m \<and> keeps_liveCount es1"
          using wait_while_liveCount[OF disjI2 k] w Blocked x by simp
        then show ?thesis using r a True w Blocked x
          by (auto simp: enter_other_Active[OF na])
      next
        case Abort
        then show ?thesis using w wait_while_not_Abort by metis
      qed
    next
      case False
      then show ?thesis using r k a
        by (auto simp: enter_other_Active[OF na] split: if_splits)
    qed
  next
    case e
    have ne': "state t \<noteq> ExitState" using ne e by simp
    define m2 where "m2 = (if state t = ExclusiveState then m\<lparr>exclusive := 0\<rparr> else m)
                   \<lparr>activeCount := activeCount m - 1\<rparr>"
    have l2: "liveCount m2 = liveCount m" by (simp add: m2_def)
    obtain w where w: "wait_while (\<lambda>m. 1 < liveCount m) es m2 = w" by simp
    show ?thesis
    proof (cases w)
      case (Done x)
      obtain es1 m1 where x: "x = (es1, m1)" by (cases x)
      have "liveCount m1 = liveCount m2 \<and> keeps_liveCount es1"
        using wait_while_liveCount[OF disjI1 k] w Done x by simp
      then show ?thesis using r e w Done x l2 
        by (auto simp: enter_other_Exit[OF ne'] m2_def[symmetric] split: if_splits)
    next
      case (Blocked x)
      obtain es1 m1 where x: "x = (es1, m1)" by (cases x)
      have "liveCount m1 = liveCount m2 \<and> keeps_liveCount es1"
        using wait_while_liveCount[OF disjI2 k] w Blocked x by simp
      then show ?thesis using r e w Blocked x l2
        by (auto simp: enter_other_Exit[OF ne'] m2_def[symmetric] split: if_splits)
    next
      case Abort
      then show ?thesis using w wait_while_not_Abort by metis
    qed
  next
    case o
    then show ?thesis using r ne by (simp add: enter_other_No_Exclusive)
  qed
qed

declare exclusive_loop.simps [simp del]

lemma exclusive_loop_liveCount:
  "exclusive_loop es m tp t = Done (es', m', t') \<or> exclusive_loop es m tp t = Blocked (es', m', t') \<Longrightarrow>
   keeps_liveCount es \<Longrightarrow> keeps_liveCount es' \<and> liveCount m' = liveCount m"
proof (induction es m tp t rule: exclusive_loop.induct)
  case (1 es m tp t)
  note r = "1.prems"(1) and k = "1.prems"(2)
  show ?case
  proof (cases "exclusive m \<noteq> 0")
    case False
    then show ?thesis using r k by (simp add: exclusive_loop.simps[of es m tp t])
  next
    case True
    show ?thesis
    proof (cases "enter_other es m tp t IdleState")
      case (Done x)
      obtain es1 m1 t1 where x: "x = (es1, m1, t1)" by (cases x)
      have i: "enter_other es m tp t IdleState = Done (es1, m1, t1)" using Done x by simp
      have k1: "keeps_liveCount es1" and l1: "liveCount m1 = liveCount m"
        using enter_other_liveCount[OF disjI1[OF i] k] by simp_all
      have s1: "state t1 = IdleState" using enter_other_Idle_Done[OF i] by simp
      show ?thesis
      proof (cases "enter_other es1 m1 tp t1 ActiveState")
        case d2: (Done y)
        obtain es2 m2 t2 where y: "y = (es2, m2, t2)" by (cases y)
        have a: "enter_other es1 m1 tp t1 ActiveState = Done (es2, m2, t2)" using d2 y by simp
        have k2: "keeps_liveCount es2" and l2: "liveCount m2 = liveCount m1"
          using enter_other_liveCount[OF disjI1[OF a] k1] s1 by simp_all
        have "exclusive_loop es m tp t = exclusive_loop es2 m2 tp t2"
          using True i a by (simp add: exclusive_loop.simps[of es m tp t])
        with r have "exclusive_loop es2 m2 tp t2 = Done (es', m', t') \<or>
            exclusive_loop es2 m2 tp t2 = Blocked (es', m', t')" by simp
        from "1.IH"[OF True i refl refl a refl refl this k2]
        show ?thesis using l1 l2 by simp
      next
        case b2: (Blocked y)
        have "exclusive_loop es m tp t = Blocked y"
          using True i b2 by (simp add: exclusive_loop.simps[of es m tp t])
        with r have a: "enter_other es1 m1 tp t1 ActiveState = Blocked (es', m', t')"
          using b2 by simp
        show ?thesis using enter_other_liveCount[OF disjI2[OF a] k1] s1 l1 by simp
      next
        case a2: Abort
        have "exclusive_loop es m tp t = Abort"
          using True i a2 by (simp add: exclusive_loop.simps[of es m tp t])
        with r show ?thesis by simp
      qed
    next
      case (Blocked x)
      have "exclusive_loop es m tp t = Blocked x"
        using True Blocked by (simp add: exclusive_loop.simps[of es m tp t])
      with r have a: "enter_other es m tp t IdleState = Blocked (es', m', t')"
        using Blocked by simp
      show ?thesis using enter_other_liveCount[OF disjI2[OF a] k] by simp
    next
      case Abort
      have "exclusive_loop es m tp t = Abort"
        using True Abort by (simp add: exclusive_loop.simps[of es m tp t])
      with r show ?thesis by simp
    qed
  qed
qed

text \<open>
  C8. Whatever the other threads do while \<^verbatim>\<open>enter\<close> waits, as long as they leave
  \<^verbatim>\<open>liveCount\<close> alone: when \<^verbatim>\<open>enter(t, s)\<close> returns or is left waiting, \<^verbatim>\<open>liveCount\<close>
  is one more than before exactly when the call has taken the thread from \<^verbatim>\<open>NoState\<close>
  to \<^verbatim>\<open>ActiveState\<close>; on a transition to \<^verbatim>\<open>ZombieState\<close> it is one less, and on every
  other transition (Idle to Active, to Exclusive, to Idle, to Exit) it is unchanged.
\<close>

theorem enter_liveCount:
  assumes r: "enter es m tp t s = Done (es', m', t') \<or> enter es m tp t s = Blocked (es', m', t')"
    and k: "keeps_liveCount es"
  shows "liveCount m' =
     (if state t = NoState \<and> s = ActiveState \<and> enter es m tp t s = Done (es', m', t')
      then liveCount m + 1
      else if s = ZombieState \<and> state t \<noteq> ZombieState then liveCount m - 1
      else liveCount m)"
proof (cases "s = state t \<or> s \<noteq> ExclusiveState")
  case True
  then have e: "enter es m tp t s = enter_other es m tp t s"
    by (auto simp: enter_def enter_other_same)
  show ?thesis using enter_other_liveCount[OF r[unfolded e] k] e by simp
next
  case False
  then have s: "s = ExclusiveState" and ne: "state t \<noteq> ExclusiveState" by auto
  show ?thesis
  proof (cases "state t = ActiveState")
    case False
    then show ?thesis using r s ne by (auto simp: enter_def)
  next
    case True
    show ?thesis
    proof (cases "exclusive_loop es m tp t")
      case (Done x)
      obtain es1 m1 t1 where x: "x = (es1, m1, t1)" by (cases x)
      have l: "exclusive_loop es m tp t = Done (es1, m1, t1)" using Done x by simp
      have k1: "keeps_liveCount es1" and l1: "liveCount m1 = liveCount m"
        using exclusive_loop_liveCount[OF disjI1[OF l] k] by simp_all
      obtain w where w: "wait_while (\<lambda>m. 1 < activeCount m) es1 (m1\<lparr>exclusive := tp\<rparr>) = w" by simp
      have "\<exists>es2. w = Done (es2, m') \<or> w = Blocked (es2, m')"
        using r s ne True l w by (auto simp: enter_def Let_def split: result.splits)
      then obtain es2 where "w = Done (es2, m') \<or> w = Blocked (es2, m')" by blast
      from wait_while_liveCount[OF this[folded w] k1] l1
      show ?thesis using s True by simp
    next
      case (Blocked x)
      then have "exclusive_loop es m tp t = Blocked (es', m', t')"
        using r s ne True by (auto simp: enter_def)
      from exclusive_loop_liveCount[OF disjI2[OF this] k] show ?thesis using s True by simp
    next
      case Abort
      then show ?thesis using r s ne True by (auto simp: enter_def)
    qed
  qed
qed

theorem enter_liveCount_witness:
  "keeps_liveCount [\<lambda>m. m\<lparr>exclusive := 0\<rparr>]
   \<and> enter [\<lambda>m. m\<lparr>exclusive := 0\<rparr>] \<lparr>exclusive = 5, activeCount = 1, liveCount = 1\<rparr> 9
         (thread0\<lparr>state := NoState\<rparr>) ActiveState
       = Done ([], \<lparr>exclusive = 0, activeCount = 2, liveCount = 2\<rparr>, thread0\<lparr>state := ActiveState\<rparr>)
   \<and> liveCount \<lparr>exclusive = 0, activeCount = 2, liveCount = 2\<rparr>
       = liveCount \<lparr>exclusive = 5, activeCount = 1, liveCount = 1\<rparr> + 1"
proof -
  have k: "keeps_liveCount [\<lambda>m. m\<lparr>exclusive := 0\<rparr>]"
    by (simp add: keeps_liveCount_def)
  have e: "enter [\<lambda>m. m\<lparr>exclusive := 0\<rparr>] \<lparr>exclusive = 5, activeCount = 1, liveCount = 1\<rparr> 9
         (thread0\<lparr>state := NoState\<rparr>) ActiveState
       = Done ([], \<lparr>exclusive = 0, activeCount = 2, liveCount = 2\<rparr>, thread0\<lparr>state := ActiveState\<rparr>)"
    by (simp add: enter_def enter_other_def thread0_def Let_def)
  from enter_liveCount[OF disjI1[OF e] k] show ?thesis using k e by simp
qed

section \<open>The interpreter: theorems\<close>

lemma if_icmple_is_if_icmplt: "if_icmple t = if_icmplt t"
  by (simp add: if_icmple_def if_icmplt_def)

text \<open>
  C4 (the code departs from the claim). The claim: \<^verbatim>\<open>if_icmple\<close> branches if and only
  if \<open>a \<le> b\<close>. With \<open>a = b = 7\<close> the code pops both operands and goes on with the
  opcode behind the two offset bytes: its test is \<^verbatim>\<open><\<close>, the same as that of
  \<^verbatim>\<open>if_icmplt\<close>.
\<close>

theorem if_icmple_equal_falls_through:
  "if_icmple thread_equal_ints = GotoLoop (thread_equal_ints\<lparr>ip := 3, sp := 0\<rparr>)
   \<and> stack thread_equal_ints 0 = Int' 7 \<and> stack thread_equal_ints 1 = Int' 7"
  by (simp add: if_icmple_def fetch_def pop_def thread_equal_ints_def thread0_def
      code_if_icmple_def word_sless_alt)

lemma arraylength_aborts:
  "stack t (unat (sp t - 1)) \<noteq> Null \<Longrightarrow> \<exists>t'. arraylength t = CallAbort t'"
  by (simp add: arraylength_def pop_def split: object.split)

text \<open>
  C5 (the code departs from the claim). The claim: for a non-null array \<^verbatim>\<open>arraylength\<close>
  pushes the length and goes on with the next opcode, and \<^verbatim>\<open>abort\<close> is not reached. On
  an int array of three elements the code pushes the boxed 3 and then calls
  \<^verbatim>\<open>abort(t)\<close>.
\<close>

theorem arraylength_int_array_aborts:
  "arraylength thread_int_array = CallAbort (push (thread_int_array\<lparr>sp := 0\<rparr>) (Int' 3))"
  by (simp add: arraylength_def pop_def thread_int_array_def thread0_def makeInt_def)

lemma fetch_twice:
  assumes "unat (ip t) + 1 < length (codeBody (code t))"
  shows "fetch t = Some (codeBody (code t) ! unat (ip t), t\<lparr>ip := ip t + 1\<rparr>)"
    and "fetch (t\<lparr>ip := ip t + 1\<rparr>) =
       Some (codeBody (code t) ! unat (ip t + 1), t\<lparr>ip := ip t + 2\<rparr>)"
proof -
  show "fetch t = Some (codeBody (code t) ! unat (ip t), t\<lparr>ip := ip t + 1\<rparr>)"
    using assms by (simp add: fetch_def)
  have "unat (ip t + 1) \<le> unat (ip t) + 1"
    by (simp add: unat_word_ariths)
  then have "unat (ip t + 1) < length (codeBody (code t))" using assms by simp
  then show "fetch (t\<lparr>ip := ip t + 1\<rparr>) =
       Some (codeBody (code t) ! unat (ip t + 1), t\<lparr>ip := ip t + 2\<rparr>)"
    by (simp add: fetch_def add.assoc)
qed

text \<open>
  C9. When the two index bytes are there and the top of the stack is \<^verbatim>\<open>0\<close>,
  \<^verbatim>\<open>checkcast\<close> goes back to \<^verbatim>\<open>loop\<close> in a thread that differs from the one it
  started in by \<^verbatim>\<open>ip\<close> alone, which is two further: \<^verbatim>\<open>sp\<close>, the stack, the pool
  and \<^verbatim>\<open>exception\<close> are as before, whatever the class resolver would have done.
\<close>

theorem checkcast_null:
  assumes "unat (ip t) + 1 < length (codeBody (code t))"
    and "stack t (unat (sp t - 1)) = Null"
  shows "checkcast by_name t = GotoLoop (t\<lparr>ip := ip t + 2\<rparr>)"
  using assms(2) by (simp add: checkcast_def fetch_twice[OF assms(1)])

theorem checkcast_null_witness:
  "unat (ip thread_null_top) + 1 < length (codeBody (code thread_null_top))
   \<and> stack thread_null_top (unat (sp thread_null_top - 1)) = Null
   \<and> checkcast (\<lambda>t v. (Null, t\<lparr>exception := NullPointerException Null Null\<rparr>)) thread_null_top
       = GotoLoop (thread_null_top\<lparr>ip := 3\<rparr>)"
proof -
  have a: "unat (ip thread_null_top) + 1 < length (codeBody (code thread_null_top))"
    by (simp add: thread_null_top_def code_checkcast_def)
  have b: "stack thread_null_top (unat (sp thread_null_top - 1)) = Null"
    by (simp add: thread_null_top_def thread0_def)
  have c: "ip thread_null_top + 2 = 3" by (simp add: thread_null_top_def)
  from checkcast_null[OF a b] show ?thesis using a b c by simp
qed




















text \<open>
  C6 (the code departs from the claim). The claim: \<^verbatim>\<open>makeTrace\<close> leaves \<^verbatim>\<open>t->frame\<close>
  as it was. In a thread two frames deep the code writes the live \<^verbatim>\<open>ip\<close> into the
  current frame and returns a trace with one entry for each frame, but it walks the
  chain with \<^verbatim>\<open>t->frame\<close> itself, which is \<^verbatim>\<open>0\<close> when the loop ends.
\<close>

theorem makeTrace_clears_frame:
  "makeTrace thread_two_frames =
     (Trace method_main 4 (Trace method_callee 2 Null), thread_two_frames\<lparr>frame := Null\<rparr>)
   \<and> frame thread_two_frames \<noteq> Null"
  by (simp add: makeTrace_def thread_two_frames_def thread0_def frame_main_def)

lemma makeTrace_loop_chain:
  "frame_chain f \<Longrightarrow>
     makeTrace_loop f trace =
       (Null, fold (\<lambda>g tr. Trace (frameMethod g) (frameIp g) tr) (frames_of f) trace)"
  by (induction f trace rule: makeTrace_loop.induct) simp_all

lemma makeTrace_frame_null:
  "frame_chain (frame t) \<Longrightarrow> frame t \<noteq> Null \<Longrightarrow> frame (snd (makeTrace t)) = Null"
  by (cases "frame t") (simp_all add: makeTrace_def makeTrace_loop_chain split_beta)


text \<open>
  C3 (the code departs from the claim). The claim: \<^verbatim>\<open>invoke\<close> copies the parameter
  cells \<^verbatim>\<open>stack[sp-k..sp)\<close> into the locals of the new frame. With one parameter and
  eight-byte references the code writes \<^verbatim>\<open>ip\<close> back, builds the frame with base
  \<^verbatim>\<open>sp - 1\<close> and sets \<^verbatim>\<open>ip\<close> to 0, but \<^verbatim>\<open>memcpy\<close> is told to copy \<^verbatim>\<open>parameterCount\<close>
  bytes: the first local gets one byte of the reference in \<^verbatim>\<open>stack[0]\<close> and keeps
  seven bytes of what the memory held before.
\<close>

theorem invoke_copies_bytes:
  "invoke 8 repr8 (\<lambda>i. 0xEE) thread_call 1 =
     GotoLoop (thread_call\<lparr>ip := 0, sp := 0,
       frame := Frame method_callee (Frame method_main Null 8 0 []) 0 0
                  [0x07, 0xEE, 0xEE, 0xEE, 0xEE, 0xEE, 0xEE, 0xEE]\<rparr>)
   \<and> repr8 (stack thread_call 0) = [0x07, 0x10, 0x20, 0x30, 0x40, 0x50, 0x60, 0x70]"
  by (simp add: invoke_def thread_call_def thread0_def method_callee_def frame_main_def
      StackSize_def makeFrame_def memcpy_def stack_memory_def repr8_def Let_def upt_rec)

lemma invoke_overflow_iff:
  "(\<exists>t'. invoke w repr mem t k = GotoThrow t') \<longleftrightarrow>
     StackSize < codeMaxStack (methodCode (code t)) + sp t - k"
  by (simp add: invoke_def Let_def split_beta)


lemma matching_handler_find: "matching_handler pool e ehs = find (catches pool e) ehs"
  by (induction ehs) (simp_all add: catches_def Let_def)

lemma throw_frames_selects:
  assumes "frames_of fr = pre @ f # post"
    and "\<forall>g \<in> set pre. frame_handler (exception t) g = None"
    and "frame_handler (exception t) f = Some eh"
  shows "throw_frames w mem t fr =
     GotoLoop (t\<lparr>frame := f, code := methodCode (frameMethod f),
       sp := frameStackBase f + 1, ip := ucast (exceptionHandlerIp eh),
       stack := (stack t)(unat (frameStackBase f) := exception t), exception := Null\<rparr>)"
  using assms
proof (induction pre arbitrary: fr t)
  case Nil
  then obtain m n i b l where fr: "fr = Frame m n i b l" and f: "f = Frame m n i b l"
    by (cases fr) auto
  have h: "codeExceptionHandlerTable (methodCode m) \<noteq> Null"
    "matching_handler (codePool (methodCode m)) (exception t)
       (exceptionHandlerTableBody (codeExceptionHandlerTable (methodCode m))) = Some eh"
    using Nil(3) by (simp_all add: f frame_handler_def Let_def split: if_splits)
  have a: "throw_frames w mem t fr =
      GotoLoop ((push (t\<lparr>frame := f, code := methodCode m, sp := b,
                         ip := ucast (exceptionHandlerIp eh)\<rparr>) (exception t))
                 \<lparr>exception := Null\<rparr>)"
    by (simp add: fr f h Let_def)
  have b: "(push (t\<lparr>frame := f, code := methodCode m, sp := b,
                         ip := ucast (exceptionHandlerIp eh)\<rparr>) (exception t))
                 \<lparr>exception := Null\<rparr> =
       t\<lparr>frame := f, code := methodCode (frameMethod f),
       sp := frameStackBase f + 1, ip := ucast (exceptionHandlerIp eh),
       stack := (stack t)(unat (frameStackBase f) := exception t), exception := Null\<rparr>"
    by (rule Thread.equality) (simp_all add: push_def f)
  show ?case by (simp only: a b)
next
  case (Cons g pre)
  then obtain m n i b l where fr: "fr = Frame m n i b l" and g: "g = Frame m n i b l"
    and n: "frames_of n = pre @ f # post"
    by (cases fr) auto
  have none: "frame_handler (exception t) g = None" using Cons.prems(2) by simp
  let ?t1 = "t\<lparr>frame := Frame m n i b l, code := methodCode m\<rparr>"
  have h: "codeExceptionHandlerTable (methodCode m) \<noteq> Null \<Longrightarrow>
    matching_handler (codePool (methodCode m)) (exception t)
       (exceptionHandlerTableBody (codeExceptionHandlerTable (methodCode m))) = None"
    using none by (simp add: g frame_handler_def Let_def)
  have step: "throw_frames w mem t fr = throw_frames w mem ?t1 n"
    using h by (cases "codeExceptionHandlerTable (methodCode m) = Null") (simp_all add: fr Let_def)
  have ih: "throw_frames w mem ?t1 n =
     GotoLoop (?t1\<lparr>frame := f, code := methodCode (frameMethod f),
       sp := frameStackBase f + 1, ip := ucast (exceptionHandlerIp eh),
       stack := (stack ?t1)(unat (frameStackBase f) := exception ?t1), exception := Null\<rparr>)"
    using Cons.prems(2,3) by (intro Cons.IH[OF n]) simp_all
  have eq: "?t1\<lparr>frame := f, code := methodCode (frameMethod f),
       sp := frameStackBase f + 1, ip := ucast (exceptionHandlerIp eh),
       stack := (stack ?t1)(unat (frameStackBase f) := exception ?t1), exception := Null\<rparr> =
     t\<lparr>frame := f, code := methodCode (frameMethod f),
       sp := frameStackBase f + 1, ip := ucast (exceptionHandlerIp eh),
       stack := (stack t)(unat (frameStackBase f) := exception t), exception := Null\<rparr>"
    by (rule Thread.equality) simp_all
  show ?case by (simp only: step ih eq)
qed

lemma find_first:
  "find P xs = Some x \<Longrightarrow> \<exists>i < length xs. xs ! i = x \<and> P x \<and> (\<forall>j < i. \<not> P (xs ! j))"
  by (auto simp: find_Some_iff)

text \<open>
  C2 (as amended). The unwind at \<^verbatim>\<open>throw_\<close> walks the frame chain from \<^verbatim>\<open>t->frame\<close>
  outwards and takes, in the first frame whose table has one, the first handler of the
  table whose \<^verbatim>\<open>catchType\<close> is 0 or whose class \<^verbatim>\<open>pool[catchType]\<close> the exception is
  an instance of; the pc range of a handler is not looked at. It then makes that frame
  the current one, sets \<^verbatim>\<open>sp\<close> to the frame's stack base, \<^verbatim>\<open>ip\<close> to the handler's
  \<^verbatim>\<open>ip\<close>, pushes the exception and clears \<^verbatim>\<open>t->exception\<close>.
\<close>

theorem throw_selects_first_catching_handler:
  assumes "frames_of (frame t) = pre @ f # post"
    and "\<forall>g \<in> set pre. frame_handler (exception t) g = None"
    and "frame_handler (exception t) f = Some eh"
  shows "throw' w mem t =
     GotoLoop (t\<lparr>frame := f, code := methodCode (frameMethod f),
       sp := frameStackBase f + 1, ip := ucast (exceptionHandlerIp eh),
       stack := (stack t)(unat (frameStackBase f) := exception t), exception := Null\<rparr>)
   \<and> (\<exists>i < length (exceptionHandlerTableBody (codeExceptionHandlerTable (methodCode (frameMethod f)))).
         exceptionHandlerTableBody (codeExceptionHandlerTable (methodCode (frameMethod f))) ! i = eh
         \<and> catches (codePool (methodCode (frameMethod f))) (exception t) eh
         \<and> (\<forall>j < i. \<not> catches (codePool (methodCode (frameMethod f))) (exception t)
               (exceptionHandlerTableBody (codeExceptionHandlerTable (methodCode (frameMethod f))) ! j)))"
proof -
  have "find (catches (codePool (methodCode (frameMethod f))) (exception t))
     (exceptionHandlerTableBody (codeExceptionHandlerTable (methodCode (frameMethod f)))) = Some eh"
    using assms(3) by (simp add: frame_handler_def Let_def matching_handler_find split: if_splits)
  from find_first[OF this] throw_frames_selects[OF assms]
  show ?thesis by (simp only: throw'_def)
qed

theorem throw_selects_first_catching_handler_witness:
  "frames_of (frame thread_catch) = [frame_inner] @ frame_outer # []
   \<and> frame_handler (exception thread_catch) frame_inner = None
   \<and> frame_handler (exception thread_catch) frame_outer = Some handler_E
   \<and> throw' 8 junk_memory thread_catch =
       GotoLoop (thread_catch\<lparr>frame := frame_outer, code := methodCode (frameMethod frame_outer),
         sp := 1, ip := 30,
         stack := (stack thread_catch)(0 := Instance class_E []), exception := Null\<rparr>)"
proof -
  have a: "frames_of (frame thread_catch) = [frame_inner] @ frame_outer # []"
    by (simp add: thread_catch_def frame_inner_def frame_outer_def)
  have e: "exception thread_catch = Instance class_E []" by (simp add: thread_catch_def)
  have b: "frame_handler (exception thread_catch) frame_inner = None"
    by (simp add: e frame_handler_def frame_inner_def Let_def handler_F_def pool_F_E_def
        instanceOf_def class_E_def class_F_def class_Object_def)
  have c: "frame_handler (exception thread_catch) frame_outer = Some handler_E"
    by (simp add: e frame_handler_def frame_outer_def Let_def handler_F_def handler_E_def
        pool_F_E_def instanceOf_def class_E_def class_F_def class_Object_def)
  have b': "\<forall>g \<in> set [frame_inner]. frame_handler (exception thread_catch) g = None"
    using b by simp
  have v: "frameStackBase frame_outer = 0" "ucast (exceptionHandlerIp handler_E) = (30 :: unsigned)"
    by (simp_all add: frame_outer_def handler_E_def)
  from throw_selects_first_catching_handler[OF a b' c, of 8 junk_memory]
  show ?thesis using a b c e v by simp
qed


text \<open>
  C2 as stated fails: a handler whose range from 10 to 20 does not contain the faulting
  \<^verbatim>\<open>ip = 5\<close> is selected all the same, and execution resumes at its \<^verbatim>\<open>ip = 30\<close>.
\<close>

theorem throw_ignores_pc_range:
  "throw' 8 junk_memory thread_outside_range =
     GotoLoop (thread_outside_range\<lparr>code := methodCode method_try, sp := 1, ip := 30,
       stack := (stack thread_outside_range)(0 := Instance class_E []), exception := Null\<rparr>)
   \<and> ip thread_outside_range = 5
   \<and> frameIp (frame thread_outside_range) = 5
   \<and> exceptionHandlerTableBody (codeExceptionHandlerTable (methodCode method_try))
       = [handler_any_10_20]
   \<and> exceptionHandlerIp handler_any_10_20 = 30
   \<and> \<not> (ucast (exceptionHandlerStart handler_any_10_20) \<le> ip thread_outside_range
          \<and> ip thread_outside_range < ucast (exceptionHandlerEnd handler_any_10_20))"
proof -
  have "throw' 8 junk_memory thread_outside_range =
     GotoLoop ((push (thread_outside_range\<lparr>code := methodCode method_try, sp := 0, ip := 30\<rparr>)
                 (Instance class_E []))\<lparr>exception := Null\<rparr>)"
    by (simp add: throw'_def thread_outside_range_def thread0_def method_try_def
        handler_any_10_20_def Let_def)
  moreover have "(push (thread_outside_range\<lparr>code := methodCode method_try, sp := 0, ip := 30\<rparr>)
                 (Instance class_E []))\<lparr>exception := Null\<rparr> =
     thread_outside_range\<lparr>code := methodCode method_try, sp := 1, ip := 30,
       stack := (stack thread_outside_range)(0 := Instance class_E []), exception := Null\<rparr>"
    by (rule Thread.equality) (simp_all add: push_def)
  moreover have "ip thread_outside_range = 5" "frameIp (frame thread_outside_range) = 5"
    by (simp_all add: thread_outside_range_def)
  moreover have "exceptionHandlerTableBody (codeExceptionHandlerTable (methodCode method_try))
       = [handler_any_10_20]" by (simp add: method_try_def)
  moreover have "exceptionHandlerIp handler_any_10_20 = 30"
    "exceptionHandlerStart handler_any_10_20 = 10" "exceptionHandlerEnd handler_any_10_20 = 20"
    by (simp_all add: handler_any_10_20_def)
  ultimately show ?thesis by simp
qed



end
